theory Spec2Isabelle
  imports Complex_Main "HOL-Library.Log_Nat"
begin

section \<open>Python strings\<close>

text \<open>
  A Python \<open>str\<close> is modelled as a \<open>string\<close>, every \<open>char\<close> standing for one code
  point below 256. \<open>isspace\<close> lists the code points below 256 that \<open>str.isspace\<close>
  accepts; \<open>str.split()\<close> without arguments cuts at runs of them and returns no empty
  word.
\<close>

definition isspace :: "char \<Rightarrow> bool" where
  "isspace c \<longleftrightarrow>
     c = CHR '' '' \<or> c = CHR 0x09 \<or> c = CHR 0x0A \<or> c = CHR 0x0B \<or> c = CHR 0x0C \<or>
     c = CHR 0x0D \<or> c = CHR 0x1C \<or> c = CHR 0x1D \<or> c = CHR 0x1E \<or> c = CHR 0x1F \<or>
     c = CHR 0x85 \<or> c = CHR 0xA0"

text \<open>\<open>split_from w s\<close> scans \<open>s\<close> with the word \<open>w\<close> read so far.\<close>

fun split_from :: "string \<Rightarrow> string \<Rightarrow> string list" where
  "split_from w [] = (if w = [] then [] else [w])"
| "split_from w (c # cs) =
     (if isspace c then (if w = [] then split_from [] cs else w # split_from [] cs)
      else split_from (w @ [c]) cs)"

definition str_split :: "string \<Rightarrow> string list" where
  "str_split s = split_from [] s"

text \<open>\<open>sep.join(ws)\<close>.\<close>

fun str_join :: "string \<Rightarrow> string list \<Rightarrow> string" where
  "str_join sep [] = []"
| "str_join sep [w] = w"
| "str_join sep (w # v # ws) = w @ sep @ str_join sep (v # ws)"

text \<open>\<open>s.strip()\<close>: whitespace removed at both ends.\<close>

definition str_strip :: "string \<Rightarrow> string" where
  "str_strip s = rev (dropWhile isspace (rev (dropWhile isspace s)))"

text \<open>\<open>xs[i:j]\<close> for \<open>0 \<le> i \<le> j\<close>: out-of-range bounds are clamped, never an error.\<close>

definition slice :: "'a list \<Rightarrow> nat \<Rightarrow> nat \<Rightarrow> 'a list" where
  "slice xs i j = take (j - i) (drop i xs)"

text \<open>\<open>range(start, stop, step)\<close> for a positive step.\<close>

definition range_step :: "nat \<Rightarrow> nat \<Rightarrow> nat \<Rightarrow> nat list" where
  "range_step start stop step =
     map (\<lambda>k. start + k * step) [0 ..< (stop - start + step - 1) div step]"


section \<open>Python floats\<close>

text \<open>
  A Python \<open>float\<close> is an IEEE 754 double. A finite double is a rational number, and
  \<open>+\<close>, \<open>*\<close> and \<open>/\<close> on floats (and \<open>/\<close> on two integers) return the exact result
  rounded to the nearest double, ties going to the even significand. \<open>fl\<close> is that
  rounding, for results in the normal range of doubles (no overflow, no subnormal
  numbers): the exponent of \<open>x\<close> is \<open>\<lfloor>log\<^sub>2 \<bar>x\<bar>\<rfloor>\<close>, and \<open>x\<close> is rounded to a multiple of
  \<open>2\<close> to the power of that exponent minus 52.
\<close>

definition round_half_even :: "rat \<Rightarrow> int" where
  "round_half_even y =
     (let n = \<lfloor>y\<rfloor>; r = y - of_int n
      in if r < 1 / 2 then n else if 1 / 2 < r then n + 1 else if even n then n else n + 1)"

definition exponent :: "rat \<Rightarrow> int" where
  "exponent x =
     (let (p, q) = quotient_of \<bar>x\<bar>;
          d = bitlen p - bitlen q
      in if 2 powi d \<le> \<bar>x\<bar> then d else d - 1)"

definition fl :: "rat \<Rightarrow> rat" where
  "fl x =
     (if x = 0 then 0
      else let ulp = 2 powi (exponent x - 52)
           in of_int (round_half_even (x / ulp)) * ulp)"


section \<open>Text overlays: \<open>create_text_clips\<close>\<close>

text \<open>
  \<open>ReelTextRenderer.create_text_clips\<close> (reelCreator.py) and
  \<open>InstagramReelCreator.create_text_clips_pil\<close> (reel\_creator.py) cut the text the same
  way: the words of the text in groups of \<open>chunk_size = 8\<close>, each group joined by one
  space.
\<close>

definition text_chunks :: "string \<Rightarrow> string list" where
  "text_chunks text =
     (let words = str_split text;
          chunk_size = 8
      in map (\<lambda>i. str_join '' '' (slice words i (i + chunk_size)))
             (range_step 0 (length words) chunk_size))"

text \<open>
  A text clip as the timeline sees it: its chunk, where it starts and how long it lasts.
  The times are floats: the quotient \<open>duration / len(chunks)\<close>, the product
  \<open>i * chunk_duration\<close> and the sum \<open>start + duration\<close> are each rounded. Rendering,
  animation and the fallback rectangle of reelCreator.py's exception handler change neither
  the start nor the duration.
\<close>

record text_clip =
  tc_text :: string
  tc_start :: rat
  tc_duration :: rat


definition create_text_clips :: "string \<Rightarrow> rat \<Rightarrow> text_clip list" where
  "create_text_clips text duration =
     (let chunks = text_chunks text
      in if chunks = [] then []
         else let chunk_duration = fl (duration / of_nat (length chunks))
              in map (\<lambda>(i, chunk).
                       \<lparr>tc_text = chunk,
                        tc_start = fl (of_nat i * chunk_duration),
                        tc_duration = chunk_duration\<rparr>)
                     (enumerate 0 chunks))"


section \<open>Errors and numbers\<close>

text \<open>
  The exceptions the modelled code can raise: \<open>ValueError\<close> (its own \<open>raise\<close>
  statements, \<open>random.sample\<close> and \<open>subclip\<close>), \<open>ZeroDivisionError\<close>, \<open>TypeError\<close> (a call
  of something that is not callable), \<open>OSError\<close> for a media file that cannot be opened,
  and \<open>ImageError\<close> for the exception of the imaging library that resamples a frame.
\<close>

datatype error = ValueError | ZeroDivisionError | TypeError | OSError | ImageError

text \<open>\<open>int(x)\<close> of a float: truncation towards zero.\<close>

definition py_int :: "rat \<Rightarrow> int" where
  "py_int q = (if 0 \<le> q then \<lfloor>q\<rfloor> else \<lceil>q\<rceil>)"

text \<open>
  \<open>random.uniform(a, b)\<close> is \<open>a + (b - a) * random.random()\<close>; the value \<open>u\<close> that
  \<open>random.random()\<close> returns is an argument of the model.
\<close>

definition uniform :: "rat \<Rightarrow> rat \<Rightarrow> rat \<Rightarrow> rat" where
  "uniform a b u = a + (b - a) * u"


section \<open>Background video: background.py\<close>

text \<open>
  A video clip as far as timing and geometry go: frame size, the offset of its first
  frame in the file it was cut from, its duration, its start on the timeline it is placed
  on (0 until \<open>set_start\<close>), and the operations applied to its frames, in order: the
  region \<open>Crop x1 y1 x2 y2\<close> cut out of the frame, the size \<open>Resize w h\<close> it was
  resampled to, fades and colour effects.
\<close>

datatype effect =
  FadeIn rat | FadeOut rat | Colorx rat | Vignette | Crop int int int int | Resize int int

record video_clip =
  vc_w :: int
  vc_h :: int
  vc_in :: rat
  vc_duration :: rat
  vc_start :: rat
  vc_effects :: "effect list"

definition fx :: "video_clip \<Rightarrow> effect \<Rightarrow> video_clip" where
  "fx clip e = clip\<lparr>vc_effects := vc_effects clip @ [e]\<rparr>"

text \<open>
  \<open>clip.subclip(t_start, t_end)\<close> of moviepy: a negative time counts from the end of the
  clip, and a start after the end of the clip raises.
\<close>

definition subclip :: "video_clip \<Rightarrow> rat \<Rightarrow> rat \<Rightarrow> error + video_clip" where
  "subclip clip t_start t_end =
     (let t_start = (if t_start < 0 then vc_duration clip + t_start else t_start)
      in if t_start > vc_duration clip then Inl ValueError
         else
           let t_end = (if t_end < 0 then vc_duration clip + t_end else t_end)
           in Inr (clip\<lparr>vc_in := vc_in clip + t_start, vc_duration := t_end - t_start\<rparr>))"

text \<open>
  \<open>clip.crop(x1=.., y1=.., x2=.., y2=..)\<close> of moviepy. A bound that is not given, or is
  0, is replaced by its default (\<open>x1 or 0\<close>, \<open>x2 or clip.size[0]\<close>), and the frame
  is sliced as \<open>pic[y1:y2, x1:x2]\<close>: \<open>slice_len n a b\<close> is the length of \<open>xs[a:b]\<close> for a
  sequence of length \<open>n\<close>.
\<close>

definition or_default :: "int option \<Rightarrow> int \<Rightarrow> int" where
  "or_default v d = (case v of None \<Rightarrow> d | Some n \<Rightarrow> if n = 0 then d else n)"

definition slice_index :: "int \<Rightarrow> int \<Rightarrow> int" where
  "slice_index n a = (if a < 0 then max 0 (a + n) else min a n)"

definition slice_len :: "int \<Rightarrow> int \<Rightarrow> int \<Rightarrow> int" where
  "slice_len n a b = max 0 (slice_index n b - slice_index n a)"

definition crop ::
  "video_clip \<Rightarrow> int option \<Rightarrow> int option \<Rightarrow> int option \<Rightarrow> int option \<Rightarrow> video_clip" where
  "crop clip x1 y1 x2 y2 =
     (let x1 = or_default x1 0;
          y1 = or_default y1 0;
          x2 = or_default x2 (vc_w clip);
          y2 = or_default y2 (vc_h clip)
      in clip\<lparr>vc_w := slice_len (vc_w clip) x1 x2,
               vc_h := slice_len (vc_h clip) y1 y2,
               vc_effects := vc_effects clip @ [Crop x1 y1 x2 y2]\<rparr>)"

text \<open>
  \<open>clip.resize(newsize)\<close> of moviepy resamples a frame of the clip at once, to find the
  new size; the imaging library raises on a frame without pixels.
\<close>

definition resize :: "video_clip \<Rightarrow> int \<times> int \<Rightarrow> error + video_clip" where
  "resize clip newsize =
     (if vc_w clip = 0 \<or> vc_h clip = 0 then Inl ImageError
      else Inr (clip\<lparr>vc_w := fst newsize, vc_h := snd newsize,
                     vc_effects := vc_effects clip @ [Resize (fst newsize) (snd newsize)]\<rparr>))"

definition target_width :: int where "target_width = 1080"
definition target_height :: int where "target_height = 1920"

text \<open>
  \<open>crop_to_vertical\<close>: the width is cut when the frame is wider than 9:16, the height
  otherwise, and the result is resampled to the target size. \<open>w / h\<close> raises for \<open>h = 0\<close>.
  The quotients \<open>w / h\<close>, \<open>h * 9 / 16\<close> and \<open>w * 16 / 9\<close> are written as exact
  rationals.
\<close>

definition crop_to_vertical :: "video_clip \<Rightarrow> error + video_clip" where
  "crop_to_vertical clip =
     (let w = vc_w clip; h = vc_h clip
      in if h = 0 then Inl ZeroDivisionError
         else
           let clip =
                 (if of_int w / of_int h > (9 / 16 :: rat) then
                    let new_width = py_int (of_int h * 9 / 16);
                        x_center = w div 2;
                        x1 = max 0 (x_center - new_width div 2);
                        x2 = min w (x1 + new_width)
                    in crop clip (Some x1) None (Some x2) None
                  else
                    let new_height = py_int (of_int w * 16 / 9);
                        y_center = h div 2;
                        y1 = max 0 (y_center - new_height div 2);
                        y2 = min h (y1 + new_height)
                    in crop clip None (Some y1) None (Some y2))
           in resize clip (target_width, target_height))"

definition add_aesthetic_effects :: "video_clip \<Rightarrow> string \<Rightarrow> video_clip" where
  "add_aesthetic_effects clip effect_type =
     (if effect_type = ''cinematic'' then fx (fx clip (Colorx (9 / 10))) Vignette
      else if effect_type = ''warm'' then fx clip (Colorx (11 / 10))
      else if effect_type = ''cool'' then fx clip (Colorx (8 / 10))
      else clip)"

text \<open>
  \<open>create_smooth_transition\<close>. In the \<open>zoom\<close> branch \<open>clip1.fx(resize, ...)\<close> calls
  \<open>resize\<close>, which \<open>from moviepy.video.fx import resize\<close> has bound to a module: the call
  raises \<open>TypeError\<close> before any fade is applied.
\<close>

definition create_smooth_transition ::
  "video_clip \<Rightarrow> video_clip \<Rightarrow> rat \<Rightarrow> string \<Rightarrow> error + video_clip \<times> video_clip" where
  "create_smooth_transition clip1 clip2 transition_duration transition_type =
     (if transition_type = ''crossfade'' then
        Inr (fx clip1 (FadeOut transition_duration), fx clip2 (FadeIn transition_duration))
      else if transition_type = ''slide'' then
        Inr (fx clip1 (FadeOut (transition_duration * (1 / 2))),
             fx clip2 (FadeIn (transition_duration * (1 / 2))))
      else if transition_type = ''zoom'' then Inl TypeError
      else Inr (clip1, clip2))"

text \<open>
  \<open>process_clip\<close> with \<open>start_time\<close> left unspecified, as \<open>create_background_video\<close>
  calls it. The file is \<open>None\<close> when it cannot be opened; any exception makes the
  function return \<open>None\<close>.
\<close>

definition process_clip :: "video_clip option \<Rightarrow> rat \<Rightarrow> rat \<Rightarrow> string \<Rightarrow> video_clip option" where
  "process_clip video segment_duration u effect_type =
     (case video of
        None \<Rightarrow> None
      | Some clip \<Rightarrow>
          let max_start = max 0 (vc_duration clip - segment_duration);
              start_time = (if max_start > 0 then uniform 0 max_start u else 0);
              end_time = min (start_time + segment_duration) (vc_duration clip)
          in case subclip clip start_time end_time of
               Inl e \<Rightarrow> None
             | Inr clip \<Rightarrow>
                 (case crop_to_vertical clip of
                    Inl e \<Rightarrow> None
                  | Inr clip \<Rightarrow> Some (add_aesthetic_effects clip effect_type)))"

text \<open>
  The transition loop of \<open>create_background_video\<close>: one step per processed clip, the
  first exception ending the loop.
\<close>

definition add_clip ::
  "rat \<Rightarrow> string \<Rightarrow> video_clip list \<Rightarrow> video_clip \<Rightarrow> error + video_clip list" where
  "add_clip transition_duration transition_type final_clips clip =
     (if final_clips = [] then Inr [fx clip (FadeIn (1 / 2))]
      else
        let prev_clip = last final_clips
        in case create_smooth_transition prev_clip clip transition_duration transition_type of
             Inl e \<Rightarrow> Inl e
           | Inr (prev_clip, clip) \<Rightarrow> Inr (butlast final_clips @ [prev_clip, clip]))"

fun transition_loop_from ::
  "rat \<Rightarrow> string \<Rightarrow> video_clip list \<Rightarrow> video_clip list \<Rightarrow> error + video_clip list" where
  "transition_loop_from transition_duration transition_type final_clips [] = Inr final_clips"
| "transition_loop_from transition_duration transition_type final_clips (clip # clips) =
     (case add_clip transition_duration transition_type final_clips clip of
        Inl e \<Rightarrow> Inl e
      | Inr final_clips \<Rightarrow>
          transition_loop_from transition_duration transition_type final_clips clips)"

definition transition_loop :: "rat \<Rightarrow> string \<Rightarrow> video_clip list \<Rightarrow> error + video_clip list" where
  "transition_loop transition_duration transition_type clips =
     transition_loop_from transition_duration transition_type [] clips"

text \<open>
  \<open>concatenate_videoclips(clips, method="compose")\<close> of moviepy, called without
  \<open>padding\<close>: the clips play one after the other, each starting at the sum of the
  durations before it, and the result lasts the sum of all durations.
\<close>

record composite =
  cv_clips :: "video_clip list"
  cv_duration :: rat
  cv_effects :: "effect list"

fun place_from :: "rat \<Rightarrow> video_clip list \<Rightarrow> video_clip list" where
  "place_from t [] = []"
| "place_from t (c # cs) = c\<lparr>vc_start := t\<rparr> # place_from (t + vc_duration c) cs"

definition concatenate_videoclips :: "video_clip list \<Rightarrow> composite" where
  "concatenate_videoclips clips =
     \<lparr>cv_clips = place_from 0 clips,
      cv_duration = sum_list (map vc_duration clips),
      cv_effects = []\<rparr>"

text \<open>
  \<open>subclip\<close> on the concatenation: as for a single clip, with the clips inside shifted
  by the new start.
\<close>

definition subclip_composite :: "composite \<Rightarrow> rat \<Rightarrow> rat \<Rightarrow> error + composite" where
  "subclip_composite video t_start t_end =
     (let t_start = (if t_start < 0 then cv_duration video + t_start else t_start)
      in if t_start > cv_duration video then Inl ValueError
         else
           let t_end = (if t_end < 0 then cv_duration video + t_end else t_end)
           in Inr (video\<lparr>cv_clips := map (\<lambda>c. c\<lparr>vc_start := vc_start c - t_start\<rparr>)
                                           (cv_clips video),
                          cv_duration := t_end - t_start\<rparr>))"

text \<open>
  \<open>create_background_video\<close> up to the export. \<open>video_files\<close> are the files of the
  stock folder (\<open>None\<close>: cannot be opened), \<open>order\<close> the indices in the order
  \<open>random.sample\<close> draws them (a permutation of the indices of \<open>video_files\<close>), and
  \<open>us i\<close> the value of \<open>random.random()\<close> in the \<open>i\<close>-th call of \<open>process_clip\<close>.
\<close>

definition create_background_video ::
  "video_clip option list \<Rightarrow> nat list \<Rightarrow> (nat \<Rightarrow> rat) \<Rightarrow> rat \<Rightarrow> int option \<Rightarrow> string
     \<Rightarrow> rat \<Rightarrow> string \<Rightarrow> error + composite" where
  "create_background_video video_files order us duration num_clips effect_type
       transition_duration transition_type =
     (if video_files = [] then Inl ValueError
      else
        let num_clips = (case num_clips of
                           None \<Rightarrow> max 3 (py_int (duration / 10))
                         | Some n \<Rightarrow> n);
            num_clips = min num_clips (int (length video_files))
        in if num_clips < 0 then Inl ValueError
           else if num_clips = 0 then Inl ZeroDivisionError
           else
             let selected_videos = map (\<lambda>i. video_files ! i) (take (nat num_clips) order);
                 segment_duration = duration / of_int num_clips + transition_duration;
                 clips = List.map_filter
                           (\<lambda>(i, video). process_clip video segment_duration (us i) effect_type)
                           (enumerate 0 selected_videos)
             in if clips = [] then Inl ValueError
                else
                  case transition_loop transition_duration transition_type clips of
                    Inl e \<Rightarrow> Inl e
                  | Inr final_clips \<Rightarrow>
                      let final_video = concatenate_videoclips final_clips
                      in case subclip_composite final_video 0
                                (min duration (cv_duration final_video)) of
                           Inl e \<Rightarrow> Inl e
                         | Inr final_video \<Rightarrow>
                             Inr (final_video\<lparr>cv_effects :=
                                    cv_effects final_video @ [FadeOut (1 / 2)]\<rparr>))"


section \<open>Reels: reelCreator.py and reel\_creator.py\<close>

text \<open>
  A content item is a dictionary of strings; \<open>d.get(k, default)\<close> and the \<open>or\<close> of two
  strings (the first one unless it is empty).
\<close>

type_synonym content_item = "string \<rightharpoonup> string"

definition dict_get :: "content_item \<Rightarrow> string \<Rightarrow> string \<Rightarrow> string" where
  "dict_get d k dflt = (case d k of Some v \<Rightarrow> v | None \<Rightarrow> dflt)"

definition py_or :: "string \<Rightarrow> string \<Rightarrow> string" where
  "py_or a b = (if a = [] then b else a)"

text \<open>\<open>s.replace('\n', ' ')\<close> and \<open>s.replace('  ', ' ')\<close> (left to right, no overlap).\<close>

definition replace_newlines :: "string \<Rightarrow> string" where
  "replace_newlines s = map (\<lambda>c. if c = CHR 0x0A then CHR '' '' else c) s"

fun replace_double_spaces :: "string \<Rightarrow> string" where
  "replace_double_spaces (a # b # cs) =
     (if a = CHR '' '' \<and> b = CHR '' '' then CHR '' '' # replace_double_spaces cs
      else a # replace_double_spaces (b # cs))"
| "replace_double_spaces cs = cs"

text \<open>
  Title and body as both reel creators combine them, \<open>f"{title}. {content_text}".strip()\<close>;
  the body is the entry \<open>content\<close> or else the entry \<open>alt_key\<close> (\<open>text\<close> in
  reelCreator.py, \<open>full_text\<close> in reel\_creator.py).
\<close>

definition combined_text :: "content_item \<Rightarrow> string \<Rightarrow> string" where
  "combined_text content_item alt_key =
     (let title = dict_get content_item ''title'' '''';
          content_text = py_or (dict_get content_item ''content'' '''')
                               (dict_get content_item alt_key '''')
      in str_strip (title @ ''. '' @ content_text))"

text \<open>
  The outcome of speech synthesis for a text, an argument of the model. \<open>NoSpeech\<close>:
  the synthesizer returns and there is no audio file to load afterwards (in
  \<open>create_single_reel\<close> also when the synthesizer raises, which its own \<open>try\<close> block
  catches). \<open>Unreadable\<close>: obtaining the audio raises an exception, because
  \<open>AudioFileClip\<close> cannot open the file or, in \<open>create_reel\<close>, because
  \<open>generate_voice_over\<close> raises in its silent fallback; \<open>create_single_reel\<close> catches
  it and goes on without audio, \<open>create_reel\<close> has no handler of its own for it.
  \<open>Speech d\<close>: audio of the measured duration \<open>d\<close>.
\<close>

datatype speech = NoSpeech | Unreadable | Speech rat

text \<open>
  The background of a reel: a segment \<open>[t_start, t_end)\<close> of the background video, or
  the video looped for a duration.
\<close>

datatype background = Subclip rat rat | Loop rat

record reel =
  reel_text :: string
  reel_audio :: "rat option"
  reel_duration :: rat
  reel_background :: background
  reel_text_clips :: "text_clip list"

text \<open>
  The body of the \<open>try\<close> block of \<open>create_single_reel\<close> (reelCreator.py).
  \<open>bg_video\<close> is the duration of the background video, \<open>None\<close> when it cannot be
  opened, and \<open>u\<close> the value of \<open>random.random()\<close>. \<open>reel_text\<close> is the text given to
  both the synthesizer and the text renderer.
\<close>

definition create_single_reel_body ::
  "rat option \<Rightarrow> content_item \<Rightarrow> (string \<Rightarrow> speech) \<Rightarrow> rat \<Rightarrow> rat \<Rightarrow> error + reel" where
  "create_single_reel_body bg_video content_item tts u max_duration =
     (case bg_video of
        None \<Rightarrow> Inl OSError
      | Some bg_duration \<Rightarrow>
          let full_text = combined_text content_item ''text''
          in if full_text = [] \<or> full_text = ''.'' then Inl ValueError
             else
               let words = str_split full_text;
                   full_text = (if length words > 200
                                then str_join '' '' (slice words 0 200) @ ''...''
                                else full_text);
                   audio = (case tts full_text of Speech d \<Rightarrow> Some d | _ \<Rightarrow> None);
                   target_duration =
                     (case audio of
                        Some d \<Rightarrow> min d max_duration
                      | None \<Rightarrow> min (of_nat (length words) / 2.5) max_duration);
                   bg = (if bg_duration > target_duration then
                           let start_time = uniform 0 (max 0 (bg_duration - target_duration)) u
                           in Subclip start_time (start_time + target_duration)
                         else Loop target_duration);
                   text_clips = create_text_clips full_text target_duration
               in Inr \<lparr>reel_text = full_text, reel_audio = audio,
                        reel_duration = target_duration, reel_background = bg,
                        reel_text_clips = text_clips\<rparr>)"

text \<open>
  \<open>create_single_reel\<close>: the handler \<open>except Exception\<close> around the body returns
  \<open>None\<close>. The result is \<open>Inl\<close> for an exception that reaches the caller.
\<close>

definition create_single_reel ::
  "rat option \<Rightarrow> content_item \<Rightarrow> (string \<Rightarrow> speech) \<Rightarrow> rat \<Rightarrow> rat \<Rightarrow> error + reel option" where
  "create_single_reel bg_video content_item tts u max_duration =
     (case create_single_reel_body bg_video content_item tts u max_duration of
        Inl e \<Rightarrow> Inr None
      | Inr final_video \<Rightarrow> Inr (Some final_video))"

text \<open>
  The body of the \<open>try\<close> block of \<open>create_reel\<close> (reel\_creator.py), which returns the
  reel and its duration. Here \<open>Unreadable\<close> is an exception of the body.
\<close>

definition create_reel_body ::
  "rat option \<Rightarrow> content_item \<Rightarrow> bool \<Rightarrow> (string \<Rightarrow> speech) \<Rightarrow> rat \<Rightarrow> error + reel \<times> rat" where
  "create_reel_body bg_video content_item voice_enabled tts u =
     (case bg_video of
        None \<Rightarrow> Inl OSError
      | Some bg_duration \<Rightarrow>
          let full_text = combined_text content_item ''full_text''
          in if full_text = [] then Inl ValueError
             else
               let full_text = replace_double_spaces (replace_newlines full_text);
                   max_words = 150;
                   words = str_split full_text;
                   full_text = (if length words > max_words
                                then str_join '' '' (slice words 0 max_words) @ ''...''
                                else full_text)
               in case (if voice_enabled then tts full_text else NoSpeech) of
                    Unreadable \<Rightarrow> Inl OSError
                  | voice \<Rightarrow>
                      let audio = (case voice of Speech d \<Rightarrow> Some d | _ \<Rightarrow> None);
                          target_duration =
                            (case audio of
                               Some d \<Rightarrow> d
                             | None \<Rightarrow>
                                 let word_count = length (str_split full_text);
                                     target_duration = (of_nat word_count / 150) * 60
                                 in max 30 (min target_duration 90));
                          bg = (if bg_duration > target_duration then
                                  let start_time = uniform 0 (bg_duration - target_duration) u
                                  in Subclip start_time (start_time + target_duration)
                                else Loop target_duration);
                          text_clips = create_text_clips full_text target_duration
                      in Inr (\<lparr>reel_text = full_text, reel_audio = audio,
                                reel_duration = target_duration, reel_background = bg,
                                reel_text_clips = text_clips\<rparr>, target_duration))"

definition create_reel ::
  "rat option \<Rightarrow> content_item \<Rightarrow> bool \<Rightarrow> (string \<Rightarrow> speech) \<Rightarrow> rat
     \<Rightarrow> error + reel option \<times> rat" where
  "create_reel bg_video content_item voice_enabled tts u =
     (case create_reel_body bg_video content_item voice_enabled tts u of
        Inl e \<Rightarrow> Inr (None, 0)
      | Inr (final_video, target_duration) \<Rightarrow> Inr (Some final_video, target_duration))"


section \<open>Example inputs\<close>

text \<open>Content items, synthesizers and clips used in the worked examples below.\<close>

definition empty_item :: content_item where
  "empty_item = Map.empty"

definition short_item :: content_item where
  "short_item = [''title'' \<mapsto> ''Hello'', ''content'' \<mapsto> ''big wide world'']"

definition long_item :: content_item where
  "long_item = [''title'' \<mapsto> ''Count'', ''content'' \<mapsto> concat (replicate 240 ''a '')]"



definition no_speech :: "string \<Rightarrow> speech" where
  "no_speech text = NoSpeech"


definition stock_clip :: "rat \<Rightarrow> video_clip" where
  "stock_clip d = \<lparr>vc_w = 1920, vc_h = 1080, vc_in = 0, vc_duration = d, vc_start = 0,
                   vc_effects = []\<rparr>"

definition first_draw :: "nat \<Rightarrow> rat" where
  "first_draw i = 0"


section \<open>Words and chunks\<close>

lemma isspace_space: "isspace (CHR '' '')"
  by (simp add: isspace_def)

lemma split_from_words:
  "\<forall>c \<in> set w. \<not> isspace c \<Longrightarrow> x \<in> set (split_from w s)
     \<Longrightarrow> x \<noteq> [] \<and> (\<forall>c \<in> set x. \<not> isspace c)"
proof (induction s arbitrary: w)
  case Nil
  then show ?case by (auto split: if_splits)
next
  case (Cons c cs)
  show ?case
  proof (cases "isspace c")
    case True
    with Cons.prems have "x = w \<and> w \<noteq> [] \<or> x \<in> set (split_from [] cs)"
      by (auto split: if_splits)
    then show ?thesis
    proof
      assume "x = w \<and> w \<noteq> []"
      with Cons.prems(1) show ?thesis by simp
    next
      assume "x \<in> set (split_from [] cs)"
      then show ?thesis using Cons.IH [of "[]"] by simp
    qed
  next
    case False
    with Cons.prems have "x \<in> set (split_from (w @ [c]) cs)" by simp
    moreover have "\<forall>d \<in> set (w @ [c]). \<not> isspace d"
      using Cons.prems(1) False by simp
    ultimately show ?thesis using Cons.IH [of "w @ [c]"] by blast
  qed
qed

lemma str_split_words:
  "x \<in> set (str_split s) \<Longrightarrow> x \<noteq> [] \<and> (\<forall>c \<in> set x. \<not> isspace c)"
  unfolding str_split_def using split_from_words [of "[]" x s] by simp

lemma split_from_word:
  "\<forall>c \<in> set v. \<not> isspace c \<Longrightarrow> split_from w (v @ s) = split_from (w @ v) s"
  by (induction v arbitrary: w) simp_all

lemma split_join:
  "\<forall>x \<in> set ws. x \<noteq> [] \<and> (\<forall>c \<in> set x. \<not> isspace c)
     \<Longrightarrow> split_from [] (str_join '' '' ws) = ws"
proof (induction "'' ''" ws rule: str_join.induct)
  case 1
  show ?case by simp
next
  case (2 w)
  then have "split_from [] (w @ []) = split_from ([] @ w) []"
    by (intro split_from_word) simp
  with 2 show ?case by simp
next
  case (3 w v ws)
  have "split_from [] (w @ '' '' @ str_join '' '' (v # ws))
        = split_from ([] @ w) ('' '' @ str_join '' '' (v # ws))"
    using 3 by (intro split_from_word) simp
  also have "\<dots> = w # split_from [] (str_join '' '' (v # ws))"
    using 3 by (simp add: isspace_space)
  also have "\<dots> = w # v # ws"
    using 3 by simp
  finally show ?case by simp
qed

lemma str_split_join:
  "\<forall>x \<in> set ws. x \<noteq> [] \<and> (\<forall>c \<in> set x. \<not> isspace c)
     \<Longrightarrow> str_split (str_join '' '' ws) = ws"
  by (simp add: str_split_def split_join)

lemma concat_split_from:
  "concat (split_from w s) = w @ filter (\<lambda>c. \<not> isspace c) s"
  by (induction s arbitrary: w) simp_all

lemma range_step_chunks:
  "range_step 0 n 8 = map (\<lambda>k. k * 8) [0 ..< (n + 7) div 8]"
  by (simp add: range_step_def add.commute)

lemma text_chunks_eq:
  "text_chunks text =
     map (\<lambda>k. str_join '' '' (take 8 (drop (k * 8) (str_split text))))
         [0 ..< (length (str_split text) + 7) div 8]"
  by (simp add: text_chunks_def Let_def range_step_chunks slice_def comp_def)

lemma length_text_chunks:
  "length (text_chunks text) = (length (str_split text) + 7) div 8"
  by (simp add: text_chunks_eq)

lemma words_of_chunk:
  assumes "i < length (text_chunks text)"
  shows "str_split (text_chunks text ! i) = take 8 (drop (i * 8) (str_split text))"
proof -
  have "set (take 8 (drop (i * 8) (str_split text))) \<subseteq> set (str_split text)"
    by (meson set_take_subset set_drop_subset subset_trans)
  then have "\<forall>x \<in> set (take 8 (drop (i * 8) (str_split text))).
               x \<noteq> [] \<and> (\<forall>c \<in> set x. \<not> isspace c)"
    using str_split_words by blast
  then have "str_split (str_join '' '' (take 8 (drop (i * 8) (str_split text))))
             = take 8 (drop (i * 8) (str_split text))"
    by (rule str_split_join)
  with assms show ?thesis
    by (simp add: text_chunks_eq)
qed

lemma concat_groups:
  "concat (map (\<lambda>k. take m (drop (k * m) xs)) [0 ..< j]) = take (j * m) xs"
proof (induction j)
  case 0
  show ?case by simp
next
  case (Suc j)
  have "take (j * m + m) xs = take (j * m) xs @ take m (drop (j * m) xs)"
    by (rule take_add)
  with Suc show ?case by (simp add: add.commute)
qed

lemma concat_chunk_words:
  "concat (map str_split (text_chunks text)) = str_split text"
proof -
  let ?ws = "str_split text"
  let ?n = "(length ?ws + 7) div 8"
  have "map str_split (text_chunks text) = map (\<lambda>k. take 8 (drop (k * 8) ?ws)) [0 ..< ?n]"
  proof (rule nth_equalityI)
    show "length (map str_split (text_chunks text))
          = length (map (\<lambda>k. take 8 (drop (k * 8) ?ws)) [0 ..< ?n])"
      by (simp add: length_text_chunks)
  next
    fix i assume "i < length (map str_split (text_chunks text))"
    then have i: "i < length (text_chunks text)" by simp
    then have "i < ?n" by (simp add: length_text_chunks)
    with i show "map str_split (text_chunks text) ! i
                 = map (\<lambda>k. take 8 (drop (k * 8) ?ws)) [0 ..< ?n] ! i"
      by (simp add: words_of_chunk)
  qed
  then have "concat (map str_split (text_chunks text)) = take (?n * 8) ?ws"
    by (simp add: concat_groups)
  moreover have "length ?ws \<le> ?n * 8" by arith
  ultimately show ?thesis by simp
qed







section \<open>The chunker is lossless\<close>




section \<open>Rounding to a double\<close>









section \<open>Text clips tile the duration, up to rounding\<close>








section \<open>Cropping to 9:16\<close>

lemma py_int_of_frac:
  assumes "0 \<le> a" and "0 < b"
  shows "py_int (of_int a / of_int b) = a div b"
proof -
  have "0 \<le> (of_int a / of_int b :: rat)" using assms by simp
  then show ?thesis
    by (simp only: py_int_def if_True floor_divide_of_int_eq)
qed

lemma wide_iff:
  assumes "0 < h"
  shows "(of_int w / of_int h > (9 / 16 :: rat)) \<longleftrightarrow> 9 * h < 16 * w"
proof -
  from assms have "(of_int w / of_int h > (9 / 16 :: rat))
                   \<longleftrightarrow> (9 * of_int h < (16 :: rat) * of_int w)"
    by (simp add: field_simps)
  also have "\<dots> \<longleftrightarrow> (of_int (9 * h) < (of_int (16 * w) :: rat))" by simp
  also have "\<dots> \<longleftrightarrow> 9 * h < 16 * w" by (simp only: of_int_less_iff)
  finally show ?thesis .
qed

lemma floor_frac: "0 < b \<Longrightarrow> \<lfloor>(of_int a / of_int b :: rat)\<rfloor> = a div b"
  by (simp only: floor_divide_of_int_eq)

text \<open>A slice with bounds inside the sequence has the length the bounds say.\<close>

lemma slice_len_inside: "0 \<le> a \<Longrightarrow> a \<le> b \<Longrightarrow> b \<le> n \<Longrightarrow> slice_len n a b = b - a"
  by (simp add: slice_len_def slice_index_def)

lemma crop_to_vertical_wide:
  assumes "0 < vc_w clip" and "2 \<le> vc_h clip" and "9 * vc_h clip < 16 * vc_w clip"
  shows "crop_to_vertical clip =
           Inr (clip\<lparr>vc_w := 1080, vc_h := 1920,
                      vc_effects := vc_effects clip @
                        [Crop (vc_w clip div 2 - (vc_h clip * 9 div 16) div 2) 0
                              (vc_w clip div 2 - (vc_h clip * 9 div 16) div 2
                                 + vc_h clip * 9 div 16)
                              (vc_h clip),
                         Resize 1080 1920]\<rparr>)"
proof -
  define w h where "w = vc_w clip" and "h = vc_h clip"
  define nw where "nw = h * 9 div 16"
  define x1 where "x1 = w div 2 - nw div 2"
  define x2 where "x2 = x1 + nw"
  from assms have h: "0 < h" and h0: "h \<noteq> 0" by (simp_all add: h_def)
  have c: "of_int w / of_int h > (9 / 16 :: rat)"
    using h assms(3) wide_iff [of h w] by (simp add: w_def h_def)
  have "py_int (of_int (h * 9) / of_int 16) = nw"
    unfolding nw_def using h by (intro py_int_of_frac) simp_all
  then have nw: "py_int (of_int h * 9 / 16) = nw" by simp
  have nw1: "1 \<le> nw" using assms(2) unfolding nw_def h_def by linarith
  have "nw \<le> w" using assms h unfolding nw_def h_def w_def by linarith
  then have x1: "0 \<le> x1" and x2: "x2 \<le> w"
    using assms unfolding x2_def x1_def by linarith+
  from nw1 x1 have x2pos: "x2 \<noteq> 0" and le: "x1 \<le> x2" unfolding x2_def by linarith+
  have x1': "max 0 (w div 2 - nw div 2) = x1" using x1 by (simp add: x1_def)
  have x2': "min w (x1 + nw) = x2" using x2 by (simp add: x2_def)
  have len: "slice_len w x1 x2 = nw"
    using x1 le x2 by (simp add: slice_len_inside x2_def)
  have hlen: "slice_len h 0 h = h"
    using h by (simp add: slice_len_inside)
  have cropped: "crop clip (Some x1) None (Some x2) None =
                   clip\<lparr>vc_w := nw, vc_h := h,
                         vc_effects := vc_effects clip @ [Crop x1 0 x2 h]\<rparr>"
    using x2pos len hlen
    by (simp add: crop_def or_default_def Let_def w_def [symmetric] h_def [symmetric])
  have "crop_to_vertical clip = resize (crop clip (Some x1) None (Some x2) None) (1080, 1920)"
    unfolding crop_to_vertical_def Let_def w_def [symmetric] h_def [symmetric]
      target_width_def target_height_def
    by (simp only: h0 c nw x1' x2' if_True if_False)
  also have "\<dots> = Inr (clip\<lparr>vc_w := 1080, vc_h := 1920,
                      vc_effects := vc_effects clip @ [Crop x1 0 x2 h, Resize 1080 1920]\<rparr>)"
    using nw1 h by (simp add: cropped resize_def)
  finally show ?thesis
    by (simp only: x1_def x2_def nw_def w_def h_def)
qed

lemma crop_to_vertical_tall:
  assumes "0 < vc_w clip" and "2 \<le> vc_h clip" and "16 * vc_w clip \<le> 9 * vc_h clip"
  shows "crop_to_vertical clip =
           Inr (clip\<lparr>vc_w := 1080, vc_h := 1920,
                      vc_effects := vc_effects clip @
                        [Crop 0 (vc_h clip div 2 - (vc_w clip * 16 div 9) div 2)
                              (vc_w clip)
                              (vc_h clip div 2 - (vc_w clip * 16 div 9) div 2
                                 + vc_w clip * 16 div 9),
                         Resize 1080 1920]\<rparr>)"
proof -
  define w h where "w = vc_w clip" and "h = vc_h clip"
  define nh where "nh = w * 16 div 9"
  define y1 where "y1 = h div 2 - nh div 2"
  define y2 where "y2 = y1 + nh"
  from assms have h: "0 < h" and h0: "h \<noteq> 0" and w: "0 < w" by (simp_all add: h_def w_def)
  have c: "\<not> of_int w / of_int h > (9 / 16 :: rat)"
    using h assms(3) wide_iff [of h w] by (simp add: w_def h_def)
  have "py_int (of_int (w * 16) / of_int 9) = nh"
    unfolding nh_def using w by (intro py_int_of_frac) simp_all
  then have nh: "py_int (of_int w * 16 / 9) = nh" by simp
  have nh1: "1 \<le> nh" using assms(1) unfolding nh_def w_def by linarith
  have "nh \<le> h" using assms unfolding nh_def h_def w_def by linarith
  then have y1: "0 \<le> y1" and y2: "y2 \<le> h"
    using h unfolding y2_def y1_def by linarith+
  from nh1 y1 have y2pos: "y2 \<noteq> 0" and le: "y1 \<le> y2" unfolding y2_def by linarith+
  have y1': "max 0 (h div 2 - nh div 2) = y1" using y1 by (simp add: y1_def)
  have y2': "min h (y1 + nh) = y2" using y2 by (simp add: y2_def)
  have len: "slice_len h y1 y2 = nh"
    using y1 le y2 by (simp add: slice_len_inside y2_def)
  have wlen: "slice_len w 0 w = w"
    using w by (simp add: slice_len_inside)
  have cropped: "crop clip None (Some y1) None (Some y2) =
                   clip\<lparr>vc_w := w, vc_h := nh,
                         vc_effects := vc_effects clip @ [Crop 0 y1 w y2]\<rparr>"
    using y2pos len wlen
    by (simp add: crop_def or_default_def Let_def w_def [symmetric] h_def [symmetric])
  have "crop_to_vertical clip = resize (crop clip None (Some y1) None (Some y2)) (1080, 1920)"
    unfolding crop_to_vertical_def Let_def w_def [symmetric] h_def [symmetric]
      target_width_def target_height_def
    by (simp only: h0 c nh y1' y2' if_True if_False)
  also have "\<dots> = Inr (clip\<lparr>vc_w := 1080, vc_h := 1920,
                      vc_effects := vc_effects clip @ [Crop 0 y1 w y2, Resize 1080 1920]\<rparr>)"
    using nh1 w by (simp add: cropped resize_def)
  finally show ?thesis
    by (simp only: y1_def y2_def nh_def w_def h_def)
qed

text \<open>
  Claim C9, as the code has it. For a clip at least 1 pixel wide and 2 pixels high,
  \<open>crop_to_vertical\<close> succeeds and returns the clip cropped to one window and then
  resampled to exactly 1080 by 1920 pixels. When \<open>w / h\<close> exceeds 9/16 the window keeps the
  full height and is \<open>h * 9/16\<close> pixels wide (a whole number of pixels, the fraction
  dropped); otherwise it keeps the full width and is \<open>w / (9/16)\<close> pixels tall. The window
  lies inside the frame and its centre is within half a pixel of the frame's centre.
\<close>

theorem crop_to_vertical_centered:
  assumes "0 < vc_w clip" and "2 \<le> vc_h clip"
  shows "(of_int (vc_w clip) / of_int (vc_h clip) > (9 / 16 :: rat) \<longrightarrow>
            (\<exists>x1 x2. crop_to_vertical clip =
                        Inr (clip\<lparr>vc_w := 1080, vc_h := 1920,
                                   vc_effects := vc_effects clip @
                                     [Crop x1 0 x2 (vc_h clip), Resize 1080 1920]\<rparr>)
               \<and> x2 - x1 = \<lfloor>of_int (vc_h clip) * (9 / 16 :: rat)\<rfloor>
               \<and> 0 \<le> x1 \<and> x2 \<le> vc_w clip \<and> \<bar>x1 + x2 - vc_w clip\<bar> \<le> 1))
         \<and> (\<not> of_int (vc_w clip) / of_int (vc_h clip) > (9 / 16 :: rat) \<longrightarrow>
            (\<exists>y1 y2. crop_to_vertical clip =
                        Inr (clip\<lparr>vc_w := 1080, vc_h := 1920,
                                   vc_effects := vc_effects clip @
                                     [Crop 0 y1 (vc_w clip) y2, Resize 1080 1920]\<rparr>)
               \<and> y2 - y1 = \<lfloor>of_int (vc_w clip) / (9 / 16 :: rat)\<rfloor>
               \<and> 0 \<le> y1 \<and> y2 \<le> vc_h clip \<and> \<bar>y1 + y2 - vc_h clip\<bar> \<le> 1))"
proof -
  let ?w = "vc_w clip" and ?h = "vc_h clip"
  from assms have h: "0 < ?h" by simp
  have fw: "\<lfloor>of_int ?h * (9 / 16 :: rat)\<rfloor> = ?h * 9 div 16"
  proof -
    have "(of_int ?h * (9 / 16 :: rat)) = of_int (?h * 9) / of_int 16" by simp
    then show ?thesis by (simp only: floor_frac)
  qed
  have fh: "\<lfloor>of_int ?w / (9 / 16 :: rat)\<rfloor> = ?w * 16 div 9"
  proof -
    have "(of_int ?w / (9 / 16 :: rat)) = of_int (?w * 16) / of_int 9" by simp
    then show ?thesis by (simp only: floor_frac)
  qed
  show ?thesis
  proof (cases "9 * ?h < 16 * ?w")
    case True
    then have wide: "of_int ?w / of_int ?h > (9 / 16 :: rat)"
      using h wide_iff [of ?h ?w] by blast
    define x1 where "x1 = ?w div 2 - (?h * 9 div 16) div 2"
    define x2 where "x2 = x1 + ?h * 9 div 16"
    have out: "crop_to_vertical clip =
                 Inr (clip\<lparr>vc_w := 1080, vc_h := 1920,
                            vc_effects := vc_effects clip @
                              [Crop x1 0 x2 ?h, Resize 1080 1920]\<rparr>)"
      unfolding x2_def x1_def using assms True by (rule crop_to_vertical_wide)
    have "?h * 9 div 16 \<le> ?w" using assms True by linarith
    then have geo: "x2 - x1 = ?h * 9 div 16 \<and> 0 \<le> x1 \<and> x2 \<le> ?w \<and> \<bar>x1 + x2 - ?w\<bar> \<le> 1"
      unfolding x2_def x1_def using assms by linarith
    with out fw have "\<exists>x1 x2. crop_to_vertical clip =
                        Inr (clip\<lparr>vc_w := 1080, vc_h := 1920,
                                   vc_effects := vc_effects clip @
                                     [Crop x1 0 x2 ?h, Resize 1080 1920]\<rparr>)
               \<and> x2 - x1 = \<lfloor>of_int ?h * (9 / 16 :: rat)\<rfloor>
               \<and> 0 \<le> x1 \<and> x2 \<le> ?w \<and> \<bar>x1 + x2 - ?w\<bar> \<le> 1"
      by metis
    with wide show ?thesis by blast
  next
    case False
    then have tall: "\<not> of_int ?w / of_int ?h > (9 / 16 :: rat)"
      using h wide_iff [of ?h ?w] by blast
    from False have le: "16 * ?w \<le> 9 * ?h" by simp
    define y1 where "y1 = ?h div 2 - (?w * 16 div 9) div 2"
    define y2 where "y2 = y1 + ?w * 16 div 9"
    have out: "crop_to_vertical clip =
                 Inr (clip\<lparr>vc_w := 1080, vc_h := 1920,
                            vc_effects := vc_effects clip @
                              [Crop 0 y1 ?w y2, Resize 1080 1920]\<rparr>)"
      unfolding y2_def y1_def using assms le by (rule crop_to_vertical_tall)
    have "?w * 16 div 9 \<le> ?h" using assms le by linarith
    then have geo: "y2 - y1 = ?w * 16 div 9 \<and> 0 \<le> y1 \<and> y2 \<le> ?h \<and> \<bar>y1 + y2 - ?h\<bar> \<le> 1"
      unfolding y2_def y1_def using assms by linarith
    with out fh have "\<exists>y1 y2. crop_to_vertical clip =
                        Inr (clip\<lparr>vc_w := 1080, vc_h := 1920,
                                   vc_effects := vc_effects clip @
                                     [Crop 0 y1 ?w y2, Resize 1080 1920]\<rparr>)
               \<and> y2 - y1 = \<lfloor>of_int ?w / (9 / 16 :: rat)\<rfloor>
               \<and> 0 \<le> y1 \<and> y2 \<le> ?h \<and> \<bar>y1 + y2 - ?h\<bar> \<le> 1"
      by metis
    with tall show ?thesis by blast
  qed
qed

theorem crop_to_vertical_centered_witness:
  "(0::int) < 1920 \<and> (2::int) \<le> 1080 \<and> (0::int) < 720 \<and> (2::int) \<le> 1600
   \<and> (of_int 1920 / of_int 1080 > (9 / 16 :: rat))
   \<and> \<not> (of_int 720 / of_int 1600 > (9 / 16 :: rat))
   \<and> (\<exists>x1 x2. crop_to_vertical (stock_clip 30) =
                  Inr \<lparr>vc_w = 1080, vc_h = 1920, vc_in = 0, vc_duration = 30, vc_start = 0,
                       vc_effects = [Crop x1 0 x2 1080, Resize 1080 1920]\<rparr>
          \<and> x2 - x1 = 607 \<and> 0 \<le> x1 \<and> x2 \<le> 1920 \<and> \<bar>x1 + x2 - 1920\<bar> \<le> 1)
   \<and> (\<exists>y1 y2. crop_to_vertical
                  \<lparr>vc_w = 720, vc_h = 1600, vc_in = 0, vc_duration = 30, vc_start = 0,
                    vc_effects = []\<rparr> =
                  Inr \<lparr>vc_w = 1080, vc_h = 1920, vc_in = 0, vc_duration = 30, vc_start = 0,
                       vc_effects = [Crop 0 y1 720 y2, Resize 1080 1920]\<rparr>
          \<and> y2 - y1 = 1280 \<and> 0 \<le> y1 \<and> y2 \<le> 1600 \<and> \<bar>y1 + y2 - 1600\<bar> \<le> 1)"
proof -
  have f: "\<lfloor>(1215 / 2 :: rat)\<rfloor> = 607" by code_simp
  show ?thesis
    using crop_to_vertical_centered [of "stock_clip 30"]
          crop_to_vertical_centered
            [of "\<lparr>vc_w = 720, vc_h = 1600, vc_in = 0, vc_duration = 30, vc_start = 0,
                  vc_effects = []\<rparr>"]
    by (simp add: f stock_clip_def)
qed

text \<open>
  The claim as stated fails for a frame 1 pixel high: \<open>1 * 9/16\<close> gives the width 0, the
  bounds \<open>x1 = x2 = 0\<close> are passed to \<open>crop\<close>, which takes the 0 for a bound that was
  not given, and the window is the whole frame, 1 pixel wide.
\<close>

theorem crop_to_vertical_counterexample:
  "crop_to_vertical \<lparr>vc_w = 1, vc_h = 1, vc_in = 0, vc_duration = 30, vc_start = 0,
                      vc_effects = []\<rparr>
     = Inr \<lparr>vc_w = 1080, vc_h = 1920, vc_in = 0, vc_duration = 30, vc_start = 0,
            vc_effects = [Crop 0 0 1 1, Resize 1080 1920]\<rparr>
   \<and> of_int 1 / of_int 1 > (9 / 16 :: rat)
   \<and> \<lfloor>of_int 1 * (9 / 16 :: rat)\<rfloor> = 0"
  by code_simp


section \<open>Exceptions inside the reel creators\<close>

lemma combined_text_empty_item: "combined_text empty_item k = ''.''"
  by (simp add: combined_text_def empty_item_def dict_get_def py_or_def str_strip_def
        isspace_def)

text \<open>
  Claim C7, as the code has it. Both reel creators wrap their whole body in
  \<open>except Exception\<close>: whatever is raised inside (here the \<open>ValueError\<close> for a missing
  text, or a media file that cannot be opened) is caught there and turned into the return
  value \<open>None\<close>, respectively \<open>(None, 0)\<close>; no exception reaches the caller.
\<close>

theorem exceptions_become_none:
  "(create_single_reel_body bg_video item tts u max_duration = Inl e
      \<longrightarrow> create_single_reel bg_video item tts u max_duration = Inr None)
   \<and> create_single_reel bg_video item tts u max_duration \<noteq> Inl e'
   \<and> (create_reel_body bg_video item voice_enabled tts u = Inl e
      \<longrightarrow> create_reel bg_video item voice_enabled tts u = Inr (None, 0))
   \<and> create_reel bg_video item voice_enabled tts u \<noteq> Inl e'"
  by (auto simp: create_single_reel_def create_reel_def split: sum.splits)

theorem exceptions_become_none_witness:
  "create_single_reel_body (Some 100) empty_item no_speech 0 90 = Inl ValueError
   \<and> create_single_reel (Some 100) empty_item no_speech 0 90 = Inr None
   \<and> create_reel_body None short_item False no_speech 0 = Inl OSError
   \<and> create_reel None short_item False no_speech 0 = Inr (None, 0)"
proof -
  have h1: "create_single_reel_body (Some 100) empty_item no_speech 0 90 = Inl ValueError"
    by (simp add: create_single_reel_body_def combined_text_empty_item)
  have h2: "create_reel_body None short_item False no_speech 0 = Inl OSError"
    by (simp add: create_reel_body_def)
  show ?thesis
    using exceptions_become_none [of "Some 100" empty_item no_speech 0 90 ValueError]
          exceptions_become_none [of None short_item no_speech 0 90 OSError _ False]
          h1 h2
    by blast
qed

text \<open>
  The claim as stated fails: with no title and no body the \<open>ValueError\<close> raised inside
  \<open>create_single_reel\<close> does not propagate, the function returns \<open>None\<close>.
\<close>

theorem exception_caught_counterexample:
  "create_single_reel_body (Some 100) empty_item no_speech 0 90 = Inl ValueError
   \<and> create_single_reel (Some 100) empty_item no_speech 0 90 = Inr None"
  by (simp add: create_single_reel_def create_single_reel_body_def combined_text_empty_item)


section \<open>What a successful body returns\<close>

lemma create_single_reel_body_Inr:
  assumes "create_single_reel_body bg_video item tts u max_duration = Inr r"
  shows "combined_text item ''text'' \<noteq> []"
    and "combined_text item ''text'' \<noteq> ''.''"
    and "reel_text r =
           (if length (str_split (combined_text item ''text'')) > 200
            then str_join '' '' (take 200 (str_split (combined_text item ''text''))) @ ''...''
            else combined_text item ''text'')"
    and "reel_audio r = (case tts (reel_text r) of Speech d \<Rightarrow> Some d | _ \<Rightarrow> None)"
    and "reel_duration r =
           (case reel_audio r of
              Some d \<Rightarrow> min d max_duration
            | None \<Rightarrow> min (of_nat (length (str_split (combined_text item ''text''))) / 2.5)
                          max_duration)"
    and "reel_text_clips r = create_text_clips (reel_text r) (reel_duration r)"
proof -
  from assms obtain bg_duration where bg: "bg_video = Some bg_duration"
    by (cases bg_video) (simp_all add: create_single_reel_body_def)
  from assms bg show ne: "combined_text item ''text'' \<noteq> []"
    and nd: "combined_text item ''text'' \<noteq> ''.''"
    by (auto simp: create_single_reel_body_def Let_def split: if_splits)
  let ?ws = "str_split (combined_text item ''text'')"
  let ?t = "if length ?ws > 200 then str_join '' '' (take 200 ?ws) @ ''...''
            else combined_text item ''text''"
  let ?a = "case tts ?t of Speech d \<Rightarrow> Some d | _ \<Rightarrow> None"
  let ?d = "case ?a of Some d \<Rightarrow> min d max_duration
            | None \<Rightarrow> min (of_nat (length ?ws) / 2.5) max_duration"
  have "create_single_reel_body bg_video item tts u max_duration =
          Inr \<lparr>reel_text = ?t, reel_audio = ?a, reel_duration = ?d,
               reel_background =
                 (if bg_duration > ?d then
                    Subclip (uniform 0 (max 0 (bg_duration - ?d)) u)
                            (uniform 0 (max 0 (bg_duration - ?d)) u + ?d)
                  else Loop ?d),
               reel_text_clips = create_text_clips ?t ?d\<rparr>"
    using bg ne nd
    by (simp add: create_single_reel_body_def Let_def slice_def)
  with assms have r: "r = \<lparr>reel_text = ?t, reel_audio = ?a, reel_duration = ?d,
               reel_background =
                 (if bg_duration > ?d then
                    Subclip (uniform 0 (max 0 (bg_duration - ?d)) u)
                            (uniform 0 (max 0 (bg_duration - ?d)) u + ?d)
                  else Loop ?d),
               reel_text_clips = create_text_clips ?t ?d\<rparr>"
    by simp
  show "reel_text r = ?t" by (simp add: r)
  show "reel_audio r = (case tts (reel_text r) of Speech d \<Rightarrow> Some d | _ \<Rightarrow> None)"
    by (simp add: r)
  show "reel_duration r =
           (case reel_audio r of
              Some d \<Rightarrow> min d max_duration
            | None \<Rightarrow> min (of_nat (length ?ws) / 2.5) max_duration)"
    by (simp add: r)
  show "reel_text_clips r = create_text_clips (reel_text r) (reel_duration r)"
    by (simp add: r)
qed


lemma create_reel_body_Inr:
  assumes "create_reel_body bg_video item voice_enabled tts u = Inr (r, t)"
  shows "reel_text r =
           (if length (str_split (replace_double_spaces (replace_newlines
                                    (combined_text item ''full_text'')))) > 150
            then str_join '' '' (take 150 (str_split (replace_double_spaces (replace_newlines
                                    (combined_text item ''full_text''))))) @ ''...''
            else replace_double_spaces (replace_newlines (combined_text item ''full_text'')))"
    and "reel_audio r =
           (case (if voice_enabled then tts (reel_text r) else NoSpeech) of
              Speech d \<Rightarrow> Some d | _ \<Rightarrow> None)"
    and "reel_duration r =
           (case reel_audio r of
              Some d \<Rightarrow> d
            | None \<Rightarrow> max 30 (min ((of_nat (length (str_split (reel_text r))) / 150) * 60) 90))"
    and "t = reel_duration r"
    and "reel_text_clips r = create_text_clips (reel_text r) (reel_duration r)"
proof -
  from assms obtain bg_duration where bg: "bg_video = Some bg_duration"
    by (cases bg_video) (simp_all add: create_reel_body_def)
  have ne: "combined_text item ''full_text'' \<noteq> []"
  proof
    assume "combined_text item ''full_text'' = []"
    then have "create_reel_body bg_video item voice_enabled tts u = Inl ValueError"
      by (simp only: create_reel_body_def bg option.case Let_def simp_thms if_True)
    with assms show False by simp
  qed
  define c where "c = replace_double_spaces (replace_newlines (combined_text item ''full_text''))"
  define ftext where "ftext = (if length (str_split c) > 150
                           then str_join '' '' (take 150 (str_split c)) @ ''...'' else c)"
  define v where "v = (if voice_enabled then tts ftext else NoSpeech)"
  define R where "R a d =
       \<lparr>reel_text = ftext, reel_audio = a, reel_duration = d,
        reel_background =
          (if bg_duration > d then
             Subclip (uniform 0 (bg_duration - d) u) (uniform 0 (bg_duration - d) u + d)
           else Loop d),
        reel_text_clips = create_text_clips ftext d\<rparr>" for a d
  define est where "est = max 30 (min ((of_nat (length (str_split ftext)) / 150) * 60) (90::rat))"
  have body: "create_reel_body bg_video item voice_enabled tts u =
          (case v of NoSpeech \<Rightarrow> Inr (R None est, est)
                   | Unreadable \<Rightarrow> Inl OSError
                   | Speech x \<Rightarrow> Inr (R (Some x) x, x))"
    by (simp only: create_reel_body_def Let_def slice_def bg option.case ne if_False diff_zero
          drop_0 speech.case c_def ftext_def v_def R_def est_def)
  have rt: "reel_text r = ftext \<and> reel_audio r = (case v of Speech d \<Rightarrow> Some d | _ \<Rightarrow> None)
            \<and> reel_duration r = (case reel_audio r of Some d \<Rightarrow> d | None \<Rightarrow> est)
            \<and> t = reel_duration r
            \<and> reel_text_clips r = create_text_clips ftext (reel_duration r)"
  proof (cases v)
    case NoSpeech
    with body assms have "r = R None est" and "t = est" by simp_all
    with NoSpeech show ?thesis by (simp add: R_def)
  next
    case Unreadable
    with body assms show ?thesis by simp
  next
    case (Speech x)
    with body assms have "r = R (Some x) x" and "t = x" by simp_all
    with Speech show ?thesis by (simp add: R_def)
  qed
  then show "reel_text r =
           (if length (str_split (replace_double_spaces (replace_newlines
                                    (combined_text item ''full_text'')))) > 150
            then str_join '' '' (take 150 (str_split (replace_double_spaces (replace_newlines
                                    (combined_text item ''full_text''))))) @ ''...''
            else replace_double_spaces (replace_newlines (combined_text item ''full_text'')))"
    by (simp only: ftext_def c_def)
  from rt show "reel_audio r =
           (case (if voice_enabled then tts (reel_text r) else NoSpeech) of
              Speech d \<Rightarrow> Some d | _ \<Rightarrow> None)"
    by (simp only: v_def)
  from rt show "reel_duration r =
           (case reel_audio r of
              Some d \<Rightarrow> d
            | None \<Rightarrow> max 30 (min ((of_nat (length (str_split (reel_text r))) / 150) * 60) 90))"
    by (simp only: est_def)
  from rt show "t = reel_duration r" by blast
  from rt show "reel_text_clips r = create_text_clips (reel_text r) (reel_duration r)"
    by simp
qed


lemma create_single_reel_body_ok:
  assumes "combined_text item ''text'' \<noteq> []" and "combined_text item ''text'' \<noteq> ''.''"
  shows "\<exists>r. create_single_reel_body (Some bg_duration) item tts u max_duration = Inr r"
  using assms by (simp add: create_single_reel_body_def Let_def)

lemma long_item_words: "length (str_split (combined_text long_item ''text'')) = 241"
  by code_simp


section \<open>Resolving the duration\<close>





section \<open>The resolved duration is positive\<close>

lemma split_from_nonempty:
  assumes "\<exists>c \<in> set s. \<not> isspace c"
  shows "split_from w s \<noteq> []"
proof
  assume "split_from w s = []"
  then have "concat (split_from w s) = []" by simp
  then have "filter (\<lambda>c. \<not> isspace c) s = []"
    by (simp add: concat_split_from)
  with assms show False by (simp add: filter_empty_conv)
qed

lemma str_strip_has_word:
  assumes "str_strip s \<noteq> []"
  shows "str_split (str_strip s) \<noteq> []"
proof -
  let ?t = "dropWhile isspace (rev (dropWhile isspace s))"
  from assms have ne: "?t \<noteq> []" by (simp add: str_strip_def)
  then have "\<not> isspace (hd ?t)" by (rule hd_dropWhile)
  moreover from ne have "hd ?t \<in> set ?t" by simp
  ultimately have "\<exists>c \<in> set (str_strip s). \<not> isspace c"
    unfolding str_strip_def by (metis set_rev)
  then show ?thesis
    unfolding str_split_def by (rule split_from_nonempty)
qed

lemma combined_text_has_word:
  "combined_text item k \<noteq> [] \<Longrightarrow> 0 < length (str_split (combined_text item k))"
  using str_strip_has_word [of "dict_get item ''title'' '''' @ ''. '' @
           py_or (dict_get item ''content'' '''') (dict_get item k '''')"]
  by (simp add: combined_text_def Let_def)

text \<open>
  Claim C8, as the code has it. When title and body are both missing or blank, so that the
  combined text is empty or the lone \<open>.\<close>, \<open>create_single_reel\<close> raises \<open>ValueError\<close>
  before it resolves any duration. Otherwise the text has a word, and the resolved duration
  is strictly positive provided \<open>max_duration\<close> is positive and the narration, if any was
  loaded, has a positive measured duration. In \<open>create_reel\<close> the duration is the measured
  narration duration, or at least 30 seconds without narration. Neither function checks the
  resolved duration itself.
\<close>

theorem duration_positive:
  "(combined_text item ''text'' = [] \<or> combined_text item ''text'' = ''.''
      \<longrightarrow> create_single_reel_body (Some bg_duration) item tts u max_duration = Inl ValueError)
   \<and> (create_single_reel_body bg_video item tts u max_duration = Inr r
        \<and> 0 < max_duration \<and> (\<forall>d. reel_audio r = Some d \<longrightarrow> 0 < d)
      \<longrightarrow> 0 < length (str_split (combined_text item ''text'')) \<and> 0 < reel_duration r)
   \<and> (create_reel_body bg_video item voice_enabled tts u = Inr (r', t)
        \<and> (\<forall>d. reel_audio r' = Some d \<longrightarrow> 0 < d)
      \<longrightarrow> 0 < t \<and> (reel_audio r' = None \<longrightarrow> 30 \<le> t))"
proof -
  have raise: "create_single_reel_body (Some bg_duration) item tts u max_duration = Inl ValueError"
    if "combined_text item ''text'' = [] \<or> combined_text item ''text'' = ''.''"
    using that by (auto simp: create_single_reel_body_def)
  have single: "0 < length (str_split (combined_text item ''text'')) \<and> 0 < reel_duration r"
    if ok: "create_single_reel_body bg_video item tts u max_duration = Inr r"
      and cap: "0 < max_duration" and aud: "\<forall>d. reel_audio r = Some d \<longrightarrow> 0 < d"
  proof -
    let ?n = "length (str_split (combined_text item ''text''))"
    from ok have "combined_text item ''text'' \<noteq> []"
      by (rule create_single_reel_body_Inr)
    then have n: "0 < ?n" by (rule combined_text_has_word)
    then have est: "(0::rat) < of_nat ?n / 2.5" by simp
    from ok have "reel_duration r =
        (case reel_audio r of Some d \<Rightarrow> min d max_duration
         | None \<Rightarrow> min (of_nat ?n / 2.5) max_duration)"
      by (rule create_single_reel_body_Inr)
    with cap aud est have "0 < reel_duration r"
      by (cases "reel_audio r") (simp_all only: option.case min_less_iff_conj simp_thms)
    with n show ?thesis by blast
  qed
  have reel: "0 < t \<and> (reel_audio r' = None \<longrightarrow> 30 \<le> t)"
    if ok: "create_reel_body bg_video item voice_enabled tts u = Inr (r', t)"
      and aud: "\<forall>d. reel_audio r' = Some d \<longrightarrow> 0 < d"
  proof -
    from ok have t: "t = reel_duration r'"
      and d: "reel_duration r' =
        (case reel_audio r' of Some d \<Rightarrow> d
         | None \<Rightarrow> max 30 (min ((of_nat (length (str_split (reel_text r'))) / 150) * 60) 90))"
      by (rule create_reel_body_Inr)+
    show ?thesis
    proof (cases "reel_audio r'")
      case None
      with d have "30 \<le> reel_duration r'" by (simp only: option.case max.cobounded1)
      with t None show ?thesis by simp
    next
      case (Some x)
      with d aud t show ?thesis by simp
    qed
  qed
  from raise single reel show ?thesis by blast
qed


theorem duration_positive_witness:
  "\<exists>r r'. combined_text empty_item ''text'' = ''.''
     \<and> create_single_reel_body (Some 100) empty_item no_speech 0 90 = Inl ValueError
     \<and> create_single_reel_body (Some 100) short_item no_speech 0 90 = Inr r
     \<and> (0::rat) < 90 \<and> reel_audio r = None \<and> 0 < reel_duration r
     \<and> create_reel_body (Some 300) short_item False no_speech 0 = Inr (r', 30)
     \<and> reel_audio r' = None"
proof -
  define r where "r = \<lparr>reel_text = ''Hello. big wide world'', reel_audio = None,
                reel_duration = 8 / 5, reel_background = Subclip 0 (8 / 5),
                reel_text_clips = [\<lparr>tc_text = ''Hello. big wide world'', tc_start = 0,
                                    tc_duration = fl (8 / 5)\<rparr>]\<rparr>"
  define r' where "r' = \<lparr>reel_text = ''Hello. big wide world'', reel_audio = None,
                reel_duration = 30, reel_background = Subclip 0 30,
                reel_text_clips = [\<lparr>tc_text = ''Hello. big wide world'', tc_start = 0,
                                    tc_duration = 30\<rparr>]\<rparr>"
  have h1: "combined_text empty_item ''text'' = ''.''"
    by (rule combined_text_empty_item)
  have h2: "create_single_reel_body (Some 100) short_item no_speech 0 90 = Inr r"
    unfolding r_def by code_simp
  have h3: "reel_audio r = None" and h3': "\<forall>d. reel_audio r = Some d \<longrightarrow> 0 < d"
    by (simp_all add: r_def)
  have h4: "create_reel_body (Some 300) short_item False no_speech 0 = Inr (r', 30)"
    unfolding r'_def by code_simp
  have h5: "reel_audio r' = None" and h5': "\<forall>d. reel_audio r' = Some d \<longrightarrow> 0 < d"
    by (simp_all add: r'_def)
  have h6: "(0::rat) < 90" by simp
  have "create_single_reel_body (Some 100) empty_item no_speech 0 90 = Inl ValueError"
    using duration_positive [of empty_item 100 no_speech 0 90 "Some 100" r False r' 30] h1
    by blast
  moreover have "0 < reel_duration r"
    using duration_positive [of short_item 100 no_speech 0 90 "Some 100" r False r' 30]
          h2 h3' h6
    by blast
  ultimately show ?thesis
    using h1 h2 h3 h4 h5 h6 by blast
qed

text \<open>
  The claim as stated fails: with \<open>max_duration = 0\<close> (the command line accepts any
  integer) a text of four words and no narration resolves to the duration 0, and a reel of
  length 0 is returned without any error.
\<close>

theorem duration_positive_counterexample:
  "create_single_reel (Some 100) short_item no_speech 0 0 =
     Inr (Some \<lparr>reel_text = ''Hello. big wide world'', reel_audio = None,
                reel_duration = 0, reel_background = Subclip 0 0,
                reel_text_clips = [\<lparr>tc_text = ''Hello. big wide world'', tc_start = 0,
                                    tc_duration = 0\<rparr>]\<rparr>)"
  by code_simp


section \<open>Long texts are cut\<close>

lemma split_join_suffix:
  assumes "\<forall>x \<in> set ws. x \<noteq> [] \<and> (\<forall>c \<in> set x. \<not> isspace c)"
    and "ws \<noteq> []" and "\<forall>c \<in> set v. \<not> isspace c"
  shows "split_from [] (str_join '' '' ws @ v) = butlast ws @ [last ws @ v]"
  using assms
proof (induction "'' ''" ws rule: str_join.induct)
  case 1
  then show ?case by simp
next
  case (2 w)
  then have "split_from [] ((w @ v) @ []) = split_from ([] @ (w @ v)) []"
    by (intro split_from_word) auto
  with 2 show ?case by simp
next
  case (3 w x ws)
  have "split_from [] (w @ '' '' @ str_join '' '' (x # ws) @ v)
        = split_from ([] @ w) ('' '' @ str_join '' '' (x # ws) @ v)"
    using 3 by (intro split_from_word) simp
  also have "\<dots> = w # split_from [] (str_join '' '' (x # ws) @ v)"
    using 3 by (simp add: isspace_space)
  also have "\<dots> = w # butlast (x # ws) @ [last (x # ws) @ v]"
    using 3 by simp
  finally show ?case by simp
qed

lemma dots_no_space: "\<forall>c \<in> set ''...''. \<not> isspace c"
  by (simp add: isspace_def)

lemma words_of_cut_text:
  assumes "n < length (str_split s)"
  shows "str_split (str_join '' '' (take (Suc n) (str_split s)) @ ''...'')
         = take n (str_split s) @ [str_split s ! n @ ''...'']"
proof -
  let ?ws = "take (Suc n) (str_split s)"
  have "set ?ws \<subseteq> set (str_split s)" by (rule set_take_subset)
  then have valid: "\<forall>x \<in> set ?ws. x \<noteq> [] \<and> (\<forall>c \<in> set x. \<not> isspace c)"
    using str_split_words by blast
  from assms have ne: "?ws \<noteq> []" by auto
  from assms have "?ws = take n (str_split s) @ [str_split s ! n]"
    by (rule take_Suc_conv_app_nth)
  then have "butlast ?ws = take n (str_split s)" and "last ?ws = str_split s ! n"
    by simp_all
  with split_join_suffix [OF valid ne dots_no_space] show ?thesis
    by (simp add: str_split_def)
qed

lemma split_from_replace_newlines:
  "split_from w (replace_newlines s) = split_from w s"
  by (induction s arbitrary: w) (simp_all add: replace_newlines_def isspace_def)

lemma split_from_replace_double_spaces:
  "split_from w (replace_double_spaces s) = split_from w s"
  by (induction s arbitrary: w rule: replace_double_spaces.induct)
     (simp_all add: isspace_space)

lemma str_split_cleaned:
  "str_split (replace_double_spaces (replace_newlines s)) = str_split s"
  by (simp add: str_split_def split_from_replace_double_spaces split_from_replace_newlines)

lemma text_of_clips: "map tc_text (create_text_clips text duration) = text_chunks text"
proof -
  have "map (\<lambda>(i, chunk). chunk) (enumerate 0 xs) = xs" for xs :: "string list"
    by (simp add: map_snd_enumerate case_prod_unfold)
  then show ?thesis
    by (simp add: create_text_clips_def Let_def comp_def case_prod_unfold)
qed


lemma create_reel_body_ok:
  assumes "combined_text item ''full_text'' \<noteq> []"
  shows "\<exists>r t. create_reel_body (Some bg_duration) item False tts u = Inr (r, t)"
proof -
  from assms have "\<exists>p. create_reel_body (Some bg_duration) item False tts u = Inr p"
    by (simp only: create_reel_body_def Let_def option.case if_False speech.case simp_thms
          sum.inject)
  then show ?thesis by (metis surj_pair)
qed

text \<open>
  Claim C10. When the combined text has more than 200 words (reelCreator.py; 150 in
  reel\_creator.py), a reel that is created carries the first 200 (150) words joined by
  single spaces with \<open>...\<close> appended, and nothing of the rest: the words of that text are
  the first 199 (149) words and the 200th (150th) with the dots attached. This cut text is
  what the synthesizer is given and what the text clips show.
\<close>

theorem long_text_cut:
  "(create_single_reel_body bg_video item tts u max_duration = Inr r
      \<and> 200 < length (str_split (combined_text item ''text''))
    \<longrightarrow> reel_text r
          = str_join '' '' (take 200 (str_split (combined_text item ''text''))) @ ''...''
        \<and> str_split (reel_text r)
          = take 199 (str_split (combined_text item ''text''))
            @ [str_split (combined_text item ''text'') ! 199 @ ''...'']
        \<and> reel_audio r = (case tts (reel_text r) of Speech d \<Rightarrow> Some d | _ \<Rightarrow> None)
        \<and> map tc_text (reel_text_clips r) = text_chunks (reel_text r)
        \<and> concat (map str_split (map tc_text (reel_text_clips r))) = str_split (reel_text r))
   \<and> (create_reel_body bg_video item voice_enabled tts u = Inr (r', t)
      \<and> 150 < length (str_split (combined_text item ''full_text''))
    \<longrightarrow> str_split (reel_text r')
          = take 149 (str_split (combined_text item ''full_text''))
            @ [str_split (combined_text item ''full_text'') ! 149 @ ''...'']
        \<and> reel_audio r' = (case (if voice_enabled then tts (reel_text r') else NoSpeech) of
                             Speech d \<Rightarrow> Some d | _ \<Rightarrow> None)
        \<and> map tc_text (reel_text_clips r') = text_chunks (reel_text r')
        \<and> concat (map str_split (map tc_text (reel_text_clips r'))) = str_split (reel_text r'))"
proof -
  have single: "reel_text r
          = str_join '' '' (take 200 (str_split (combined_text item ''text''))) @ ''...''
        \<and> str_split (reel_text r)
          = take 199 (str_split (combined_text item ''text''))
            @ [str_split (combined_text item ''text'') ! 199 @ ''...'']
        \<and> reel_audio r = (case tts (reel_text r) of Speech d \<Rightarrow> Some d | _ \<Rightarrow> None)
        \<and> map tc_text (reel_text_clips r) = text_chunks (reel_text r)
        \<and> concat (map str_split (map tc_text (reel_text_clips r))) = str_split (reel_text r)"
    if ok: "create_single_reel_body bg_video item tts u max_duration = Inr r"
      and long: "200 < length (str_split (combined_text item ''text''))"
  proof -
    let ?ws = "str_split (combined_text item ''text'')"
    from ok long have cut: "reel_text r = str_join '' '' (take 200 ?ws) @ ''...''"
      by (simp add: create_single_reel_body_Inr(3))
    from long have "199 < length ?ws" by simp
    then have "str_split (str_join '' '' (take (Suc 199) ?ws) @ ''...'')
               = take 199 ?ws @ [?ws ! 199 @ ''...'']"
      by (rule words_of_cut_text)
    with cut have ws: "str_split (reel_text r) = take 199 ?ws @ [?ws ! 199 @ ''...'']"
      by simp
    from ok have aud: "reel_audio r = (case tts (reel_text r) of Speech d \<Rightarrow> Some d | _ \<Rightarrow> None)"
      by (rule create_single_reel_body_Inr)
    from ok have "reel_text_clips r = create_text_clips (reel_text r) (reel_duration r)"
      by (rule create_single_reel_body_Inr)
    then have clips: "map tc_text (reel_text_clips r) = text_chunks (reel_text r)"
      by (simp add: text_of_clips)
    then have "concat (map str_split (map tc_text (reel_text_clips r))) = str_split (reel_text r)"
      by (simp only: concat_chunk_words)
    with cut ws aud clips show ?thesis by blast
  qed
  have reel: "str_split (reel_text r')
          = take 149 (str_split (combined_text item ''full_text''))
            @ [str_split (combined_text item ''full_text'') ! 149 @ ''...'']
        \<and> reel_audio r' = (case (if voice_enabled then tts (reel_text r') else NoSpeech) of
                             Speech d \<Rightarrow> Some d | _ \<Rightarrow> None)
        \<and> map tc_text (reel_text_clips r') = text_chunks (reel_text r')
        \<and> concat (map str_split (map tc_text (reel_text_clips r'))) = str_split (reel_text r')"
    if ok: "create_reel_body bg_video item voice_enabled tts u = Inr (r', t)"
      and long: "150 < length (str_split (combined_text item ''full_text''))"
  proof -
    let ?ws = "str_split (combined_text item ''full_text'')"
    from ok long have cut: "reel_text r' = str_join '' '' (take 150 ?ws) @ ''...''"
      by (simp add: create_reel_body_Inr(1) str_split_cleaned)
    from long have "149 < length ?ws" by simp
    then have "str_split (str_join '' '' (take (Suc 149) ?ws) @ ''...'')
               = take 149 ?ws @ [?ws ! 149 @ ''...'']"
      by (rule words_of_cut_text)
    with cut have ws: "str_split (reel_text r') = take 149 ?ws @ [?ws ! 149 @ ''...'']"
      by simp
    from ok have aud: "reel_audio r' =
        (case (if voice_enabled then tts (reel_text r') else NoSpeech) of
           Speech d \<Rightarrow> Some d | _ \<Rightarrow> None)"
      by (rule create_reel_body_Inr)
    from ok have "reel_text_clips r' = create_text_clips (reel_text r') (reel_duration r')"
      by (rule create_reel_body_Inr)
    then have clips: "map tc_text (reel_text_clips r') = text_chunks (reel_text r')"
      by (simp add: text_of_clips)
    then have "concat (map str_split (map tc_text (reel_text_clips r'))) = str_split (reel_text r')"
      by (simp only: concat_chunk_words)
    with ws aud clips show ?thesis by blast
  qed
  from single reel show ?thesis by blast
qed

lemma long_item_words_full: "length (str_split (combined_text long_item ''full_text'')) = 241"
  by code_simp

theorem long_text_cut_witness:
  "\<exists>r r' t. create_single_reel_body (Some 100) long_item no_speech 0 90 = Inr r
     \<and> 200 < length (str_split (combined_text long_item ''text''))
     \<and> str_split (reel_text r)
       = take 199 (str_split (combined_text long_item ''text''))
         @ [str_split (combined_text long_item ''text'') ! 199 @ ''...'']
     \<and> create_reel_body (Some 100) long_item False no_speech 0 = Inr (r', t)
     \<and> 150 < length (str_split (combined_text long_item ''full_text''))
     \<and> str_split (reel_text r')
       = take 149 (str_split (combined_text long_item ''full_text''))
         @ [str_split (combined_text long_item ''full_text'') ! 149 @ ''...'']"
proof -
  have l1: "200 < length (str_split (combined_text long_item ''text''))"
    by (simp add: long_item_words)
  have l2: "150 < length (str_split (combined_text long_item ''full_text''))"
    by (simp add: long_item_words_full)
  have "combined_text long_item ''text'' \<noteq> []" and "combined_text long_item ''text'' \<noteq> ''.''"
    using long_item_words by (auto simp: str_split_def isspace_def)
  then obtain r where r: "create_single_reel_body (Some 100) long_item no_speech 0 90 = Inr r"
    using create_single_reel_body_ok by blast
  have "combined_text long_item ''full_text'' \<noteq> []"
    using long_item_words_full by (auto simp: str_split_def)
  then obtain r' t where r': "create_reel_body (Some 100) long_item False no_speech 0 = Inr (r', t)"
    using create_reel_body_ok by blast
  have "str_split (reel_text r)
       = take 199 (str_split (combined_text long_item ''text''))
         @ [str_split (combined_text long_item ''text'') ! 199 @ ''...'']"
    using long_text_cut [of "Some 100" long_item no_speech 0 90 r False r' t] r l1 by blast
  moreover have "str_split (reel_text r')
       = take 149 (str_split (combined_text long_item ''full_text''))
         @ [str_split (combined_text long_item ''full_text'') ! 149 @ ''...'']"
    using long_text_cut [of "Some 100" long_item no_speech 0 90 r False r' t] r' l2 by blast
  ultimately show ?thesis using r r' l1 l2 by blast
qed


section \<open>Transitions between background clips\<close>

lemma create_smooth_transition_durations:
  assumes "create_smooth_transition c1 c2 td ty = Inr (c1', c2')"
  shows "vc_duration c1' = vc_duration c1 \<and> vc_duration c2' = vc_duration c2"
  using assms by (auto simp: create_smooth_transition_def fx_def split: if_splits)

lemma add_clip_durations:
  assumes "add_clip td ty final_clips clip = Inr final_clips'"
  shows "map vc_duration final_clips'
         = map vc_duration final_clips @ [vc_duration clip]"
proof (cases "final_clips = []")
  case True
  with assms show ?thesis by (auto simp: add_clip_def fx_def)
next
  case False
  then have split: "map vc_duration final_clips
             = map vc_duration (butlast final_clips) @ [vc_duration (last final_clips)]"
    by (metis append_butlast_last_id list.simps(8,9) map_append)
  from assms False obtain p c where
    tr: "create_smooth_transition (last final_clips) clip td ty = Inr (p, c)"
    and out: "final_clips' = butlast final_clips @ [p, c]"
    by (auto simp: add_clip_def Let_def split: sum.splits)
  from tr have "vc_duration p = vc_duration (last final_clips)"
    and "vc_duration c = vc_duration clip"
    using create_smooth_transition_durations by blast+
  with out split show ?thesis by simp
qed

lemma transition_loop_from_durations:
  "transition_loop_from td ty acc clips = Inr final_clips
     \<Longrightarrow> map vc_duration final_clips = map vc_duration acc @ map vc_duration clips"
proof (induction clips arbitrary: acc)
  case Nil
  then show ?case by simp
next
  case (Cons clip clips)
  then obtain acc' where step: "add_clip td ty acc clip = Inr acc'"
    and rest: "transition_loop_from td ty acc' clips = Inr final_clips"
    by (auto split: sum.splits)
  from rest have "map vc_duration final_clips = map vc_duration acc' @ map vc_duration clips"
    by (rule Cons.IH)
  with add_clip_durations [OF step] show ?case by simp
qed

lemma transition_loop_from_total:
  assumes "ty = ''crossfade'' \<or> ty = ''slide''"
  shows "\<exists>final_clips. transition_loop_from td ty acc clips = Inr final_clips"
proof (induction clips arbitrary: acc)
  case Nil
  show ?case by simp
next
  case (Cons clip clips)
  from assms have "\<exists>acc'. add_clip td ty acc clip = Inr acc'"
    by (auto simp: add_clip_def create_smooth_transition_def Let_def)
  then obtain acc' where "add_clip td ty acc clip = Inr acc'" by blast
  with Cons.IH [of acc'] show ?case by simp
qed

text \<open>
  Claim C5, as the code has it. For the transition types \<open>crossfade\<close> and \<open>slide\<close>,
  \<open>create_smooth_transition\<close> gives the first clip a fade-out and the second a fade-in of
  exactly the requested duration (half of it for \<open>slide\<close>), whatever the lengths of the
  two clips and whatever the sign of the duration, and the transition loop goes through;
  the durations of the clips are left as they are, by one transition and by every loop
  that goes through. Nothing is clamped.
\<close>

theorem transition_not_clamped:
  "(create_smooth_transition c1 c2 td ty = Inr (c1', c2') \<longrightarrow>
        vc_duration c1' = vc_duration c1 \<and> vc_duration c2' = vc_duration c2
        \<and> (ty = ''crossfade'' \<longrightarrow>
             vc_effects c1' = vc_effects c1 @ [FadeOut td]
             \<and> vc_effects c2' = vc_effects c2 @ [FadeIn td])
        \<and> (ty = ''slide'' \<longrightarrow>
             vc_effects c1' = vc_effects c1 @ [FadeOut (td * (1 / 2))]
             \<and> vc_effects c2' = vc_effects c2 @ [FadeIn (td * (1 / 2))]))
   \<and> (ty = ''crossfade'' \<or> ty = ''slide'' \<longrightarrow>
        (\<exists>p. create_smooth_transition c1 c2 td ty = Inr p)
        \<and> (\<exists>final_clips. transition_loop td ty clips = Inr final_clips))
   \<and> (transition_loop td ty clips = Inr final_clips \<longrightarrow>
        map vc_duration final_clips = map vc_duration clips)"
proof -
  have "vc_duration c1' = vc_duration c1 \<and> vc_duration c2' = vc_duration c2"
    if "create_smooth_transition c1 c2 td ty = Inr (c1', c2')"
    using that by (rule create_smooth_transition_durations)
  moreover have "vc_effects c1' = vc_effects c1 @ [FadeOut td]
                 \<and> vc_effects c2' = vc_effects c2 @ [FadeIn td]"
    if "create_smooth_transition c1 c2 td ty = Inr (c1', c2')" and "ty = ''crossfade''"
    using that by (auto simp: create_smooth_transition_def fx_def)
  moreover have "vc_effects c1' = vc_effects c1 @ [FadeOut (td * (1 / 2))]
                 \<and> vc_effects c2' = vc_effects c2 @ [FadeIn (td * (1 / 2))]"
    if "create_smooth_transition c1 c2 td ty = Inr (c1', c2')" and "ty = ''slide''"
    using that by (auto simp: create_smooth_transition_def fx_def)
  moreover have "\<exists>p. create_smooth_transition c1 c2 td ty = Inr p"
    if "ty = ''crossfade'' \<or> ty = ''slide''"
    using that by (auto simp: create_smooth_transition_def)
  moreover have "\<exists>final_clips. transition_loop td ty clips = Inr final_clips"
    if "ty = ''crossfade'' \<or> ty = ''slide''"
    unfolding transition_loop_def using that by (rule transition_loop_from_total)
  moreover have "map vc_duration final_clips = map vc_duration clips"
    if "transition_loop td ty clips = Inr final_clips"
    using that transition_loop_from_durations [of td ty "[]" clips final_clips]
    by (simp add: transition_loop_def)
  ultimately show ?thesis by blast
qed

theorem transition_not_clamped_witness:
  "create_smooth_transition (stock_clip 1) (stock_clip 5) 3 ''crossfade''
     = Inr (fx (stock_clip 1) (FadeOut 3), fx (stock_clip 5) (FadeIn 3))
   \<and> vc_duration (fx (stock_clip 1) (FadeOut 3)) = vc_duration (stock_clip 1)
   \<and> vc_effects (fx (stock_clip 1) (FadeOut 3)) = vc_effects (stock_clip 1) @ [FadeOut 3]
   \<and> create_smooth_transition (stock_clip 1) (stock_clip 5) 3 ''slide''
     = Inr (fx (stock_clip 1) (FadeOut (3 / 2)), fx (stock_clip 5) (FadeIn (3 / 2)))
   \<and> vc_effects (fx (stock_clip 1) (FadeOut (3 / 2)))
     = vc_effects (stock_clip 1) @ [FadeOut (3 * (1 / 2))]
   \<and> (\<exists>final_clips.
         transition_loop 3 ''crossfade'' [stock_clip 1, stock_clip 5] = Inr final_clips
         \<and> map vc_duration final_clips = [1, 5])"
proof -
  have h1: "create_smooth_transition (stock_clip 1) (stock_clip 5) 3 ''crossfade''
            = Inr (fx (stock_clip 1) (FadeOut 3), fx (stock_clip 5) (FadeIn 3))"
    by (simp add: create_smooth_transition_def)
  have h2: "create_smooth_transition (stock_clip 1) (stock_clip 5) 3 ''slide''
            = Inr (fx (stock_clip 1) (FadeOut (3 / 2)), fx (stock_clip 5) (FadeIn (3 / 2)))"
    by (simp add: create_smooth_transition_def)
  have h3: "''crossfade'' = ''crossfade'' \<or> ''crossfade'' = ''slide''" by simp
  from transition_not_clamped [of "stock_clip 1" "stock_clip 5" 3 "''crossfade''"
            "fx (stock_clip 1) (FadeOut 3)" "fx (stock_clip 5) (FadeIn 3)"
            "[stock_clip 1, stock_clip 5]"] h3
  obtain final_clips where
    loop: "transition_loop 3 ''crossfade'' [stock_clip 1, stock_clip 5] = Inr final_clips"
    by blast
  have "map vc_duration final_clips = map vc_duration [stock_clip 1, stock_clip 5]"
    using transition_not_clamped [of "stock_clip 1" "stock_clip 5" 3 "''crossfade''"
            "fx (stock_clip 1) (FadeOut 3)" "fx (stock_clip 5) (FadeIn 3)"
            "[stock_clip 1, stock_clip 5]" final_clips] loop
    by blast
  then have durations: "map vc_duration final_clips = [1, 5]"
    by (simp add: stock_clip_def)
  have a: "vc_duration (fx (stock_clip 1) (FadeOut 3)) = vc_duration (stock_clip 1)"
    and a': "vc_effects (fx (stock_clip 1) (FadeOut 3)) = vc_effects (stock_clip 1) @ [FadeOut 3]"
    using transition_not_clamped [of "stock_clip 1" "stock_clip 5" 3 "''crossfade''"
            "fx (stock_clip 1) (FadeOut 3)" "fx (stock_clip 5) (FadeIn 3)" "[]" "[]"] h1
    by blast+
  have b: "vc_effects (fx (stock_clip 1) (FadeOut (3 / 2)))
           = vc_effects (stock_clip 1) @ [FadeOut (3 * (1 / 2))]"
    using transition_not_clamped [of "stock_clip 1" "stock_clip 5" 3 "''slide''"
            "fx (stock_clip 1) (FadeOut (3 / 2))" "fx (stock_clip 5) (FadeIn (3 / 2))" "[]" "[]"]
          h2
    by blast
  show ?thesis
    by (intro conjI exI [of _ final_clips]) (rule h1 h2 a a' b loop durations)+
qed

text \<open>
  The claim as stated fails: a 3-second crossfade out of a clip that lasts 1 second is a
  3-second fade, not one clamped to 1 second, and a requested duration of -1 second is
  passed on as it is.
\<close>

theorem transition_clamp_counterexample:
  "create_smooth_transition (stock_clip 1) (stock_clip 5) 3 ''crossfade''
     = Inr (\<lparr>vc_w = 1920, vc_h = 1080, vc_in = 0, vc_duration = 1, vc_start = 0,
              vc_effects = [FadeOut 3]\<rparr>,
            \<lparr>vc_w = 1920, vc_h = 1080, vc_in = 0, vc_duration = 5, vc_start = 0,
              vc_effects = [FadeIn 3]\<rparr>)
   \<and> create_smooth_transition (stock_clip 1) (stock_clip 5) (- 1) ''crossfade''
     = Inr (\<lparr>vc_w = 1920, vc_h = 1080, vc_in = 0, vc_duration = 1, vc_start = 0,
              vc_effects = [FadeOut (- 1)]\<rparr>,
            \<lparr>vc_w = 1920, vc_h = 1080, vc_in = 0, vc_duration = 5, vc_start = 0,
              vc_effects = [FadeIn (- 1)]\<rparr>)"
  by (simp add: create_smooth_transition_def fx_def stock_clip_def)


section \<open>Layout of the background clips\<close>

lemma length_place_from: "length (place_from t cs) = length cs"
  by (induction cs arbitrary: t) simp_all

lemma place_from_first: "cs \<noteq> [] \<Longrightarrow> vc_start (hd (place_from t cs)) = t"
  by (cases cs) simp_all

text \<open>
  In a concatenation every clip starts exactly where the one before it ends: neighbouring
  clips never overlap, whatever fades they carry.
\<close>

lemma place_from_back_to_back:
  "Suc i < length cs \<Longrightarrow>
     vc_start (place_from t cs ! Suc i)
     = vc_start (place_from t cs ! i) + vc_duration (place_from t cs ! i)"
proof (induction cs arbitrary: t i)
  case Nil
  then show ?case by simp
next
  case (Cons c cs)
  show ?case
  proof (cases i)
    case 0
    with Cons.prems obtain d ds where "cs = d # ds" by (cases cs) auto
    with 0 show ?thesis by simp
  next
    case (Suc j)
    with Cons.prems have "Suc j < length cs" by simp
    then show ?thesis using Cons.IH [of j "t + vc_duration c"] Suc by simp
  qed
qed

text \<open>
  Claim C1 at a concrete input: three stock files of 30 seconds and 1920x1080 pixels, a
  background of 60 seconds from 3 clips with crossfades of 1.5 seconds. Each segment is cut \<open>60 / 3 + 1.5 = 21.5\<close>
  seconds long, the extra 1.5 seconds being meant for the overlap, but the clips are
  placed back to back at 0, 21.5 and 43: the second clip does not start at
  \<open>21.5 - 1.5 = 20\<close>, no two clips overlap, and the third clip, which ends at 64.5, is cut
  off at 60.
\<close>

theorem background_clips_back_to_back:
  "create_background_video [Some (stock_clip 30), Some (stock_clip 30), Some (stock_clip 30)]
       [0, 1, 2] first_draw 60 (Some 3) ''cinematic'' (3 / 2) ''crossfade''
   = Inr \<lparr>cv_clips =
            [\<lparr>vc_w = 1080, vc_h = 1920, vc_in = 0, vc_duration = 43 / 2, vc_start = 0,
               vc_effects = [Crop 657 0 1264 1080, Resize 1080 1920,
                             Colorx (9 / 10), Vignette, FadeIn (1 / 2), FadeOut (3 / 2)]\<rparr>,
             \<lparr>vc_w = 1080, vc_h = 1920, vc_in = 0, vc_duration = 43 / 2, vc_start = 43 / 2,
               vc_effects = [Crop 657 0 1264 1080, Resize 1080 1920,
                             Colorx (9 / 10), Vignette, FadeIn (3 / 2), FadeOut (3 / 2)]\<rparr>,
             \<lparr>vc_w = 1080, vc_h = 1920, vc_in = 0, vc_duration = 43 / 2, vc_start = 43,
               vc_effects = [Crop 657 0 1264 1080, Resize 1080 1920,
                             Colorx (9 / 10), Vignette, FadeIn (3 / 2)]\<rparr>],
          cv_duration = 60, cv_effects = [FadeOut (1 / 2)]\<rparr>"
  by code_simp

end
